theory Spec2Isabelle
  imports Complex_Main
begin

section \<open>The preset store of voicevox\_engine/preset/Preset.py\<close>

text \<open>
  The development embeds \<^verbatim>\<open>Preset\<close> and \<^verbatim>\<open>PresetManager\<close>. Python objects are
  mutable and shared by reference: \<^verbatim>\<open>add_preset\<close> assigns to the \<^verbatim>\<open>id\<close> attribute of the
  object it was given and appends that very object, and \<^verbatim>\<open>load_presets\<close> returns the list
  object held in \<^verbatim>\<open>self.presets\<close>. The model therefore has an explicit heap: Preset objects
  and list objects live at addresses, the cache is a list object holding addresses.

  The file system is outside the program. A call sees it through \<open>fs\<close> (what
  \<^verbatim>\<open>stat\<close> and \<^verbatim>\<open>open\<close> + \<^verbatim>\<open>yaml.safe_load\<close> give at that moment) and through the
  outcome of its write. A successful write is recorded as the Python object the code
  hands to \<^verbatim>\<open>yaml.safe_dump\<close> and the file's new modification time. The YAML text in
  between is PyYAML's and is not modelled: whether a later \<^verbatim>\<open>yaml.safe_load\<close> returns the
  object that was dumped is a property of PyYAML and of the values, and it is a
  hypothesis (\<open>reads_back\<close>) of every statement that needs it. It does not hold for every
  record: with \<^verbatim>\<open>allow_unicode=True\<close> PyYAML writes the character U+0085 of a string as it
  is inside a single-quoted scalar and reads it back as a space.
  Floats are modelled as reals (no NaN, no infinities, no rounding): the code only stores
  and compares them. A NaN, which no read gives back equal to itself, is outside the
  model.
\<close>

subsection \<open>Values and records\<close>

datatype pyval =
    PNone
  | PBool bool
  | PInt int
  | PFloat real
  | PStr string
  | PList "pyval list"
  | PDict "(string \<times> pyval) list"

text \<open>The fields of class \<^verbatim>\<open>Preset\<close>, in declaration order; \<^verbatim>\<open>id\<close> is \<open>preset_id\<close>
  here (\<open>id\<close> is the identity function of HOL), \<^verbatim>\<open>StyleId\<close> is an int.\<close>

record preset =
  preset_id :: int
  name :: string
  speaker_uuid :: string
  style_id :: int
  speedScale :: real
  intonationScale :: real
  tempoDynamicsScale :: real
  pitchScale :: real
  volumeScale :: real
  prePhonemeLength :: real
  postPhonemeLength :: real

text \<open>The four places that raise \<^verbatim>\<open>PresetInternalError\<close> and the two that raise
  \<^verbatim>\<open>PresetInputError\<close>, told apart by their message.\<close>

datatype internal_reason = FileNotFound | EmptyContent | Mistake | DuplicateId

datatype input_reason = UpdateTargetMissing | DeleteTargetMissing

text \<open>\<open>OtherException c\<close> is any other subclass of \<^verbatim>\<open>Exception\<close>, by class name
  (\<^verbatim>\<open>PermissionError\<close>, \<^verbatim>\<open>yaml.YAMLError\<close>, ...).\<close>

datatype error =
    PresetInputError input_reason
  | PresetInternalError internal_reason
  | ValueError
  | FileNotFoundError
  | OtherException string

subsection \<open>Construction of a Preset (pydantic validation)\<close>

text \<open>
  \<^verbatim>\<open>Preset\<close> declares eleven fields with \<^verbatim>\<open>Field(title=..., description=...)\<close>: a type for
  each, a default for \<^verbatim>\<open>tempoDynamicsScale\<close> only, and no bound (\<^verbatim>\<open>ge\<close>, \<^verbatim>\<open>le\<close>, ...) and
  no validator on any of them. Construction checks that the required fields are there
  and that each value has the field's type or converts to it in pydantic's lax mode:
  for an int field an int, a boolean (0 or 1) or a float without fractional part; for a
  float field a float, a boolean, or an int within the range of a double (beyond it
  pydantic raises; the rounding of a large int to the nearest double is not modelled);
  for a str field a str. What pydantic's lax mode does with a numeric string for an int
  or float field is the library's own parsing and is left out: such a value is rejected
  here where the program converts it, so that \<open>refresh_cache\<close> below reports a mistake on
  such a file; no statement of this theory depends on it. Keys that are no field are
  ignored.
\<close>

definition as_int :: "pyval \<Rightarrow> int option" where
  "as_int v =
     (case v of
        PInt i \<Rightarrow> Some i
      | PBool b \<Rightarrow> Some (if b then 1 else 0)
      | PFloat x \<Rightarrow> if x = of_int \<lfloor>x\<rfloor> then Some \<lfloor>x\<rfloor> else None
      | _ \<Rightarrow> None)"

definition field_int :: "(string \<times> pyval) list \<Rightarrow> string \<Rightarrow> int option" where
  "field_int kw k = (case map_of kw k of Some v \<Rightarrow> as_int v | None \<Rightarrow> None)"

definition field_str :: "(string \<times> pyval) list \<Rightarrow> string \<Rightarrow> string option" where
  "field_str kw k = (case map_of kw k of Some (PStr s) \<Rightarrow> Some s | _ \<Rightarrow> None)"

definition as_float :: "pyval \<Rightarrow> real option" where
  "as_float v =
     (case v of
        PFloat x \<Rightarrow> Some x
      | PInt i \<Rightarrow> if \<bar>i\<bar> < 2 ^ 1024 - 2 ^ 970 then Some (of_int i) else None
      | PBool b \<Rightarrow> Some (if b then 1 else 0)
      | _ \<Rightarrow> None)"

definition field_float :: "(string \<times> pyval) list \<Rightarrow> string \<Rightarrow> real option" where
  "field_float kw k = (case map_of kw k of Some v \<Rightarrow> as_float v | None \<Rightarrow> None)"

definition field_float_default :: "(string \<times> pyval) list \<Rightarrow> string \<Rightarrow> real \<Rightarrow> real option" where
  "field_float_default kw k d = (case map_of kw k of Some v \<Rightarrow> as_float v | None \<Rightarrow> Some d)"

text \<open>\<^verbatim>\<open>Preset(**kw)\<close>, and the validation of one mapping of the file: \<open>None\<close> is
  \<^verbatim>\<open>ValidationError\<close>.\<close>

definition Preset_validate :: "(string \<times> pyval) list \<Rightarrow> preset option" where
  "Preset_validate kw =
     Option.bind (field_int kw ''id'') (\<lambda>a.
     Option.bind (field_str kw ''name'') (\<lambda>b.
     Option.bind (field_str kw ''speaker_uuid'') (\<lambda>c.
     Option.bind (field_int kw ''style_id'') (\<lambda>d.
     Option.bind (field_float kw ''speedScale'') (\<lambda>e.
     Option.bind (field_float kw ''intonationScale'') (\<lambda>f.
     Option.bind (field_float_default kw ''tempoDynamicsScale'' 1) (\<lambda>g.
     Option.bind (field_float kw ''pitchScale'') (\<lambda>h.
     Option.bind (field_float kw ''volumeScale'') (\<lambda>i.
     Option.bind (field_float kw ''prePhonemeLength'') (\<lambda>j.
     Option.bind (field_float kw ''postPhonemeLength'') (\<lambda>k.
       Some \<lparr>preset_id = a, name = b, speaker_uuid = c, style_id = d,
         speedScale = e, intonationScale = f, tempoDynamicsScale = g, pitchScale = h,
         volumeScale = i, prePhonemeLength = j, postPhonemeLength = k\<rparr>)))))))))))"

text \<open>\<^verbatim>\<open>preset.model_dump()\<close>: the fields as a dict, in declaration order.\<close>

definition model_dump :: "preset \<Rightarrow> (string \<times> pyval) list" where
  "model_dump p =
     [(''id'', PInt (preset_id p)),
      (''name'', PStr (name p)),
      (''speaker_uuid'', PStr (speaker_uuid p)),
      (''style_id'', PInt (style_id p)),
      (''speedScale'', PFloat (speedScale p)),
      (''intonationScale'', PFloat (intonationScale p)),
      (''tempoDynamicsScale'', PFloat (tempoDynamicsScale p)),
      (''pitchScale'', PFloat (pitchScale p)),
      (''volumeScale'', PFloat (volumeScale p)),
      (''prePhonemeLength'', PFloat (prePhonemeLength p)),
      (''postPhonemeLength'', PFloat (postPhonemeLength p))]"

text \<open>\<^verbatim>\<open>parse_obj_as(list[Preset], obj)\<close>: \<open>obj\<close> must be a sequence and every item a
  mapping that validates as a Preset.\<close>

fun parse_items :: "pyval list \<Rightarrow> preset list option" where
  "parse_items [] = Some []"
| "parse_items (v # vs) =
     (case v of
        PDict kw \<Rightarrow>
          (case Preset_validate kw of
             None \<Rightarrow> None
           | Some p \<Rightarrow> map_option ((#) p) (parse_items vs))
      | _ \<Rightarrow> None)"

definition parse_obj_as_list_Preset :: "pyval \<Rightarrow> preset list option" where
  "parse_obj_as_list_Preset obj = (case obj of PList vs \<Rightarrow> parse_items vs | _ \<Rightarrow> None)"

text \<open>The ranges of section 3 of the specification, as the specification words them
  (the source has no such check; this predicate is only what the claim is measured
  against).\<close>

definition spec_in_range :: "preset \<Rightarrow> bool" where
  "spec_in_range p \<longleftrightarrow>
     1 / 2 \<le> speedScale p \<and> speedScale p \<le> 2 \<and>
     0 \<le> intonationScale p \<and> intonationScale p \<le> 2 \<and>
     0 \<le> tempoDynamicsScale p \<and> tempoDynamicsScale p \<le> 2 \<and>
     - (15 / 100) \<le> pitchScale p \<and> pitchScale p \<le> 15 / 100 \<and>
     0 \<le> volumeScale p \<and> volumeScale p \<le> 2 \<and>
     0 \<le> prePhonemeLength p \<and> 0 \<le> postPhonemeLength p"

subsection \<open>Heap, manager, file system\<close>

type_synonym ref = nat

text \<open>An address is an index: \<open>objs h ! r\<close> is the Preset object at \<open>r\<close>, \<open>list_objs h ! l\<close>
  the list object at \<open>l\<close>. Allocation appends.\<close>

record heap =
  objs :: "preset list"
  list_objs :: "ref list list"

text \<open>The attributes of a \<^verbatim>\<open>PresetManager\<close>. \<^verbatim>\<open>preset_path\<close> is fixed: the file at that
  path is what \<open>fs\<close> shows.\<close>

record manager =
  presets :: ref
  last_modified_time :: real

type_synonym state = "heap \<times> manager"

text \<open>What the file shows during one call: \<open>stat_mtime\<close> is \<open>None\<close> when
  \<^verbatim>\<open>preset_path.stat()\<close> raises \<^verbatim>\<open>OSError\<close>; \<open>load\<close> is the outcome of \<^verbatim>\<open>open\<close> and
  \<^verbatim>\<open>yaml.safe_load\<close>, an exception or the document.\<close>

record fs =
  stat_mtime :: "real option"
  load :: "error + pyval"

text \<open>The outcome of \<^verbatim>\<open>open(..., "w")\<close> and \<^verbatim>\<open>yaml.safe_dump\<close>: an exception, or success
  with the file's new modification time.\<close>

datatype write_env = WriteFails error | WriteOk real

definition wf_heap :: "heap \<Rightarrow> bool" where
  "wf_heap h \<longleftrightarrow> (\<forall>l \<in> set (list_objs h). \<forall>r \<in> set l. r < length (objs h))"

definition wf_state :: "state \<Rightarrow> bool" where
  "wf_state s \<longleftrightarrow> wf_heap (fst s) \<and> presets (snd s) < length (list_objs (fst s))"

definition cache :: "state \<Rightarrow> ref list" where
  "cache s = list_objs (fst s) ! presets (snd s)"

definition ids :: "heap \<Rightarrow> ref list \<Rightarrow> int list" where
  "ids h rs = map (\<lambda>r. preset_id (objs h ! r)) rs"

text \<open>The records the cache holds, by value.\<close>

definition cache_values :: "state \<Rightarrow> preset list" where
  "cache_values s = map (\<lambda>r. objs (fst s) ! r) (cache s)"

definition set_list :: "heap \<Rightarrow> ref \<Rightarrow> ref list \<Rightarrow> heap" where
  "set_list h l rs = h\<lparr>list_objs := (list_objs h)[l := rs]\<rparr>"

definition set_id :: "heap \<Rightarrow> ref \<Rightarrow> int \<Rightarrow> heap" where
  "set_id h r i = h\<lparr>objs := (objs h)[r := (objs h ! r)\<lparr>preset_id := i\<rparr>]\<rparr>"

subsection \<open>PresetManager\<close>

text \<open>\<^verbatim>\<open>__init__\<close>: a new empty list object, watermark 0.0.\<close>

definition PresetManager_init :: "heap \<Rightarrow> state" where
  "PresetManager_init h =
     (h\<lparr>list_objs := list_objs h @ [[]]\<rparr>,
      \<lparr>presets = length (list_objs h), last_modified_time = 0\<rparr>)"

text \<open>The last two assignments of \<^verbatim>\<open>_refresh_cache\<close>, \<^verbatim>\<open>self.presets = _presets\<close> and
  \<^verbatim>\<open>self.last_modified_time = _last_modified_time\<close>: the parsed presets are new objects
  and \<^verbatim>\<open>_presets\<close> is a new list object.\<close>

definition adopt :: "state \<Rightarrow> preset list \<Rightarrow> real \<Rightarrow> state" where
  "adopt s ps t =
     (let h = fst s; n = length (objs h) in
      (h\<lparr>objs := objs h @ ps, list_objs := list_objs h @ [[n ..< n + length ps]]\<rparr>,
       (snd s)\<lparr>presets := length (list_objs h), last_modified_time := t\<rparr>))"

text \<open>\<^verbatim>\<open>_refresh_cache\<close>. On an error the manager and every object the caller can reach
  are as before the call.\<close>

definition refresh_cache :: "fs \<Rightarrow> state \<Rightarrow> error + state" where
  "refresh_cache f s =
     (case stat_mtime f of
        None \<Rightarrow> Inl (PresetInternalError FileNotFound)
      | Some t \<Rightarrow>
          if t = last_modified_time (snd s) then Inr s
          else
            (case load f of
               Inl e \<Rightarrow> Inl e
             | Inr obj \<Rightarrow>
                 if obj = PNone then Inl (PresetInternalError EmptyContent)
                 else
                   (case parse_obj_as_list_Preset obj of
                      None \<Rightarrow> Inl (PresetInternalError Mistake)
                    | Some ps \<Rightarrow>
                        if length (map preset_id ps) \<noteq> card (set (map preset_id ps))
                        then Inl (PresetInternalError DuplicateId)
                        else Inr (adopt s ps t))))"

text \<open>What a successful \<^verbatim>\<open>_write_on_file\<close> did: the Python object it handed to
  \<^verbatim>\<open>yaml.safe_dump\<close>, and the modification time the file has afterwards.\<close>

record file_write =
  write_time :: real
  document :: pyval

text \<open>\<^verbatim>\<open>[preset.model_dump() for preset in self.presets]\<close>: the whole cache, in cache
  order.\<close>

definition dumped :: "state \<Rightarrow> pyval" where
  "dumped s = PList (map (\<lambda>p. PDict (model_dump p)) (cache_values s))"

definition written :: "real \<Rightarrow> state \<Rightarrow> file_write" where
  "written t s = \<lparr>write_time = t, document = dumped s\<rparr>"

text \<open>\<^verbatim>\<open>_write_on_file\<close>.\<close>

definition write_on_file :: "write_env \<Rightarrow> state \<Rightarrow> error + file_write" where
  "write_on_file w s = (case w of WriteFails e \<Rightarrow> Inl e | WriteOk t \<Rightarrow> Inr (written t s))"


definition faithful_view :: "file_write \<Rightarrow> fs" where
  "faithful_view wr = \<lparr>stat_mtime = Some (write_time wr), load = Inr (document wr)\<rparr>"

text \<open>Python's \<^verbatim>\<open>max\<close> of a list: \<^verbatim>\<open>ValueError\<close> on the empty list.\<close>

fun py_max :: "int list \<Rightarrow> error + int" where
  "py_max [] = Inl ValueError"
| "py_max (x # xs) = Inr (fold max xs x)"

text \<open>The handler of \<^verbatim>\<open>add_preset\<close> and \<^verbatim>\<open>update_preset\<close>:
  \<^verbatim>\<open>if isinstance(err, FileNotFoundError): raise PresetInternalError(...) else: raise err\<close>.\<close>

definition reraise :: "error \<Rightarrow> error" where
  "reraise err = (if err = FileNotFoundError then PresetInternalError FileNotFound else err)"

text \<open>The tail of \<^verbatim>\<open>add_preset\<close>, from \<^verbatim>\<open>self.presets.append(preset)\<close> on. A result is
  the raised error or the returned id with the write that was made, and the state left
  behind.\<close>

definition add_append :: "write_env \<Rightarrow> ref \<Rightarrow> state \<Rightarrow> (error + int \<times> file_write) \<times> state" where
  "add_append w r s =
     (let l = presets (snd s);
          s2 = (set_list (fst s) l (cache s @ [r]), snd s)
      in case write_on_file w s2 of
           Inl err \<Rightarrow> (Inl (reraise err), (set_list (fst s2) l (butlast (cache s2)), snd s2))
         | Inr f' \<Rightarrow> (Inr (preset_id (objs (fst s2) ! r), f'), s2))"

definition add_preset :: "fs \<Rightarrow> write_env \<Rightarrow> ref \<Rightarrow> state \<Rightarrow> (error + int \<times> file_write) \<times> state" where
  "add_preset f w r s =
     (case refresh_cache f s of
        Inl e \<Rightarrow> (Inl e, s)
      | Inr s1 \<Rightarrow>
          (let existing = ids (fst s1) (cache s1);
               i = preset_id (objs (fst s1) ! r)
           in if i < 0 \<or> i \<in> set existing then
                (case py_max existing of
                   Inl e \<Rightarrow> (Inl e, s1)
                 | Inr m \<Rightarrow> add_append w r (set_id (fst s1) r (m + 1), snd s1))
              else add_append w r s1))"

text \<open>\<^verbatim>\<open>load_presets\<close> returns \<^verbatim>\<open>self.presets\<close>: the address of the cache's list object.\<close>

definition load_presets :: "fs \<Rightarrow> state \<Rightarrow> (error + ref) \<times> state" where
  "load_presets f s =
     (case refresh_cache f s of
        Inl e \<Rightarrow> (Inl e, s)
      | Inr s1 \<Rightarrow> (Inr (presets (snd s1)), s1))"

text \<open>The search loops of \<^verbatim>\<open>update_preset\<close> and \<^verbatim>\<open>delete_preset\<close>: the first index whose
  entry has the id, \<open>None\<close> when the loop reaches its \<^verbatim>\<open>else\<close>.\<close>

fun index_of_id :: "heap \<Rightarrow> ref list \<Rightarrow> int \<Rightarrow> nat option" where
  "index_of_id h [] k = None"
| "index_of_id h (r # rs) k =
     (if preset_id (objs h ! r) = k then Some 0 else map_option Suc (index_of_id h rs k))"

definition update_preset :: "fs \<Rightarrow> write_env \<Rightarrow> ref \<Rightarrow> state \<Rightarrow> (error + int \<times> file_write) \<times> state" where
  "update_preset f w r s =
     (case refresh_cache f s of
        Inl e \<Rightarrow> (Inl e, s)
      | Inr s1 \<Rightarrow>
          (let l = presets (snd s1) in
           case index_of_id (fst s1) (cache s1) (preset_id (objs (fst s1) ! r)) of
             None \<Rightarrow> (Inl (PresetInputError UpdateTargetMissing), s1)
           | Some i \<Rightarrow>
               (let prev = cache s1 ! i;
                    s2 = (set_list (fst s1) l ((cache s1)[i := r]), snd s1)
                in case write_on_file w s2 of
                     Inl err \<Rightarrow>
                       (Inl (reraise err), (set_list (fst s2) l ((cache s2)[i := prev]), snd s2))
                   | Inr f' \<Rightarrow> (Inr (preset_id (objs (fst s2) ! r), f'), s2))))"

text \<open>\<^verbatim>\<open>list.pop(i)\<close> and \<^verbatim>\<open>list.insert(i, x)\<close> for an index within the list.\<close>

definition pop_at :: "nat \<Rightarrow> 'a list \<Rightarrow> 'a list" where
  "pop_at i xs = take i xs @ drop (Suc i) xs"

definition insert_at :: "nat \<Rightarrow> 'a \<Rightarrow> 'a list \<Rightarrow> 'a list" where
  "insert_at i x xs = take i xs @ x # drop i xs"

text \<open>\<^verbatim>\<open>delete_preset\<close>: its handler is \<^verbatim>\<open>except FileNotFoundError\<close> alone, so any other
  exception of the write leaves the handler out and propagates.\<close>

definition delete_preset :: "fs \<Rightarrow> write_env \<Rightarrow> int \<Rightarrow> state \<Rightarrow> (error + int \<times> file_write) \<times> state" where
  "delete_preset f w k s =
     (case refresh_cache f s of
        Inl e \<Rightarrow> (Inl e, s)
      | Inr s1 \<Rightarrow>
          (let l = presets (snd s1) in
           case index_of_id (fst s1) (cache s1) k of
             None \<Rightarrow> (Inl (PresetInputError DeleteTargetMissing), s1)
           | Some i \<Rightarrow>
               (let buf = cache s1 ! i;
                    s2 = (set_list (fst s1) l (pop_at i (cache s1)), snd s1)
                in case write_on_file w s2 of
                     Inl err \<Rightarrow>
                       if err = FileNotFoundError
                       then (Inl (PresetInternalError FileNotFound),
                             (set_list (fst s2) l (insert_at i buf (cache s2)), snd s2))
                       else (Inl err, s2)
                   | Inr f' \<Rightarrow> (Inr (k, f'), s2))))"

subsection \<open>The states the operations leave, named\<close>

text \<open>These are not functions of the source: they name, for the statements below, the
  condition of \<^verbatim>\<open>add_preset\<close>'s \<^verbatim>\<open>if\<close>, the id it settles on, and the state each
  operation leaves when its write succeeds.\<close>

definition must_issue :: "state \<Rightarrow> ref \<Rightarrow> bool" where
  "must_issue s1 r \<longleftrightarrow>
     preset_id (objs (fst s1) ! r) < 0 \<or>
     preset_id (objs (fst s1) ! r) \<in> set (ids (fst s1) (cache s1))"

definition issued_id :: "state \<Rightarrow> ref \<Rightarrow> int" where
  "issued_id s1 r =
     (if preset_id (objs (fst s1) ! r) < 0 \<or>
         preset_id (objs (fst s1) ! r) \<in> set (ids (fst s1) (cache s1))
      then Max (set (ids (fst s1) (cache s1))) + 1
      else preset_id (objs (fst s1) ! r))"

text \<open>After add: the object at \<open>r\<close> carries the issued id and is the last entry of the
  cache. After update: the entry at index \<open>j\<close> is \<open>r\<close>. After delete: the entry at
  index \<open>j\<close> is gone.\<close>

definition added :: "state \<Rightarrow> ref \<Rightarrow> state" where
  "added s1 r =
     (set_list (set_id (fst s1) r (issued_id s1 r)) (presets (snd s1)) (cache s1 @ [r]), snd s1)"

definition updated :: "state \<Rightarrow> nat \<Rightarrow> ref \<Rightarrow> state" where
  "updated s1 j r = (set_list (fst s1) (presets (snd s1)) ((cache s1)[j := r]), snd s1)"

definition deleted :: "state \<Rightarrow> nat \<Rightarrow> state" where
  "deleted s1 j = (set_list (fst s1) (presets (snd s1)) (pop_at j (cache s1)), snd s1)"

subsection \<open>Sequences of calls\<close>

text \<open>A caller's sequence of mutating calls. Each call comes with what the file shows
  when it starts (the file may have been edited from outside in between) and with the
  outcome of its write. \<open>perform_all\<close> is the state after the last call when every call
  returned, \<open>None\<close> when one raised. \<open>passes_fresh\<close> says that every object handed over
  exists and that an object handed to add is not, at that moment, an entry of the
  cache.\<close>

datatype call = Add ref | Update ref | Delete int

definition perform :: "fs \<Rightarrow> write_env \<Rightarrow> call \<Rightarrow> state \<Rightarrow> (error + int \<times> file_write) \<times> state" where
  "perform f w c s =
     (case c of
        Add r \<Rightarrow> add_preset f w r s
      | Update r \<Rightarrow> update_preset f w r s
      | Delete k \<Rightarrow> delete_preset f w k s)"

fun perform_all :: "(fs \<times> write_env \<times> call) list \<Rightarrow> state \<Rightarrow> state option" where
  "perform_all [] s = Some s"
| "perform_all ((f, w, c) # cs) s =
     (case fst (perform f w c s) of
        Inl e \<Rightarrow> None
      | Inr v \<Rightarrow> perform_all cs (snd (perform f w c s)))"

fun passes_fresh :: "(fs \<times> write_env \<times> call) list \<Rightarrow> state \<Rightarrow> bool" where
  "passes_fresh [] s = True"
| "passes_fresh ((f, w, c) # cs) s =
     ((case c of
         Add r \<Rightarrow> r < length (objs (fst s)) \<and> r \<notin> set (cache s)
       | Update r \<Rightarrow> r < length (objs (fst s))
       | Delete k \<Rightarrow> True) \<and>
      passes_fresh cs (snd (perform f w c s)))"

subsection \<open>Concrete records and states\<close>

text \<open>A record with every numeric field inside the ranges of the specification, and one
  with \<^verbatim>\<open>speedScale\<close> = 100, \<^verbatim>\<open>pitchScale\<close> = 1 and \<^verbatim>\<open>prePhonemeLength\<close> = -1.\<close>

definition example_preset :: "int \<Rightarrow> string \<Rightarrow> preset" where
  "example_preset i n =
     \<lparr>preset_id = i, name = n, speaker_uuid = ''uuid'', style_id = 0,
      speedScale = 1, intonationScale = 1, tempoDynamicsScale = 1, pitchScale = 0,
      volumeScale = 1, prePhonemeLength = 1 / 10, postPhonemeLength = 1 / 10\<rparr>"

definition out_of_range_preset :: preset where
  "out_of_range_preset =
     \<lparr>preset_id = 0, name = ''A'', speaker_uuid = ''uuid'', style_id = 0,
      speedScale = 100, intonationScale = 1, tempoDynamicsScale = 1, pitchScale = 1,
      volumeScale = 1, prePhonemeLength = - 1, postPhonemeLength = 0\<rparr>"

text \<open>A store whose cache is the list object at address 0, holding the objects at
  addresses 0 and 1 (ids 0 and 5), with watermark 1; the objects at addresses 2 and 3
  (ids 7 and -1) are the caller's and in no list. And a file last modified at 1, so
  that a call does not reload.\<close>

definition two_state :: state where
  "two_state =
     (\<lparr>objs = [example_preset 0 ''A'', example_preset 5 ''B'', example_preset 7 ''C'',
              example_preset (- 1) ''D''],
       list_objs = [[0, 1]]\<rparr>,
      \<lparr>presets = 0, last_modified_time = 1\<rparr>)"

definition unchanged_fs :: fs where
  "unchanged_fs = \<lparr>stat_mtime = Some 1, load = Inr PNone\<rparr>"

text \<open>A heap with one Preset object of id -1 and no store yet, and a file holding the
  empty sequence \<^verbatim>\<open>[]\<close>.\<close>

definition caller_heap :: heap where
  "caller_heap = \<lparr>objs = [example_preset (- 1) ''A''], list_objs = []\<rparr>"

definition empty_list_fs :: fs where
  "empty_list_fs = \<lparr>stat_mtime = Some 1, load = Inr (PList [])\<rparr>"






section \<open>Basic facts\<close>

lemma Preset_validate_model_dump: "Preset_validate (model_dump p) = Some p"
  by (simp add: Preset_validate_def model_dump_def field_int_def field_str_def
      field_float_def field_float_default_def as_float_def as_int_def)

lemma parse_items_model_dump: "parse_items (map (\<lambda>p. PDict (model_dump p)) ps) = Some ps"
  by (induction ps) (simp_all add: Preset_validate_model_dump)

lemma nth_append_upt: "map ((!) (xs @ ps)) [length xs ..< length xs + length ps] = ps"
  by (rule nth_equalityI) (simp_all add: nth_append)

lemma cache_adopt: "cache (adopt s ps t) = [length (objs (fst s)) ..< length (objs (fst s)) + length ps]"
  by (simp add: cache_def adopt_def Let_def)

lemma cache_values_adopt: "cache_values (adopt s ps t) = ps"
proof -
  have "objs (fst (adopt s ps t)) = objs (fst s) @ ps"
    by (simp add: adopt_def Let_def)
  then show ?thesis
    by (simp add: cache_values_def cache_adopt nth_append_upt)
qed

lemma ids_values: "ids (fst s) (cache s) = map preset_id (cache_values s)"
  by (simp add: ids_def cache_values_def)

text \<open>The uniqueness test of \<^verbatim>\<open>_refresh_cache\<close>, \<^verbatim>\<open>len([...]) != len({...})\<close>, is
  distinctness of the ids.\<close>

lemma length_card_ids: "(length ps = card (preset_id ` set ps)) = distinct (map preset_id ps)"
  using card_distinct[of "map preset_id ps"] distinct_card[of "map preset_id ps"] by auto

text \<open>A successful reconcile either leaves the state as it is or adopts a parsed
  sequence with pairwise distinct ids.\<close>

lemma refresh_cache_cases:
  assumes "refresh_cache f s = Inr s1"
  shows "s1 = s \<or>
    (\<exists>t ps. stat_mtime f = Some t \<and> t \<noteq> last_modified_time (snd s) \<and>
       distinct (map preset_id ps) \<and> s1 = adopt s ps t)"
  using assms
  by (auto simp: refresh_cache_def length_card_ids
      split: option.splits if_splits sum.splits)

lemma wf_state_adopt:
  assumes "wf_state s"
  shows "wf_state (adopt s ps t)"
proof -
  have lt: "r < length (objs (fst s))" if "l \<in> set (list_objs (fst s))" "r \<in> set l" for l r
    using assms that by (auto simp: wf_state_def wf_heap_def)
  show ?thesis
    unfolding wf_state_def wf_heap_def adopt_def Let_def
    using lt by (auto intro: trans_less_add1)
qed

lemma refresh_cache_wf:
  assumes "wf_state s" "refresh_cache f s = Inr s1"
  shows "wf_state s1"
  using refresh_cache_cases[OF assms(2)] assms(1) by (auto simp: wf_state_adopt)

lemma refresh_cache_objs:
  assumes "refresh_cache f s = Inr s1" "r < length (objs (fst s))"
  shows "objs (fst s1) ! r = objs (fst s) ! r" and "r < length (objs (fst s1))"
  using refresh_cache_cases[OF assms(1)] assms(2)
  by (auto simp: nth_append adopt_def Let_def)

lemma refresh_cache_idem:
  assumes "refresh_cache f s = Inr s1"
  shows "refresh_cache f s1 = Inr s1"
  using refresh_cache_cases[OF assms] assms
  by (auto simp: refresh_cache_def adopt_def Let_def split: option.splits)

lemma refresh_cache_distinct:
  assumes "distinct (ids (fst s) (cache s))" "refresh_cache f s = Inr s1"
  shows "distinct (ids (fst s1) (cache s1))"
  using refresh_cache_cases[OF assms(2)] assms(1)
  by (auto simp: ids_values cache_values_adopt)

lemma refresh_cache_not_cached:
  assumes "r < length (objs (fst s))" "r \<notin> set (cache s)" "refresh_cache f s = Inr s1"
  shows "r \<notin> set (cache s1)"
  using refresh_cache_cases[OF assms(3)] assms(1,2)
  by (auto simp: cache_adopt)

lemma refresh_cache_unchanged:
  "stat_mtime f = Some (last_modified_time (snd s)) \<Longrightarrow> refresh_cache f s = Inr s"
  by (simp add: refresh_cache_def)

lemma refresh_cache_duplicates:
  assumes "stat_mtime f = Some t" "t \<noteq> last_modified_time (snd s)"
    "load f = Inr (PList (map (\<lambda>p. PDict (model_dump p)) ps))"
    "\<not> distinct (map preset_id ps)"
  shows "refresh_cache f s = Inl (PresetInternalError DuplicateId)"
  using assms
  by (simp add: refresh_cache_def parse_obj_as_list_Preset_def parse_items_model_dump
      length_card_ids)

lemma load_presets_Inr:
  "refresh_cache f s = Inr s1 \<Longrightarrow> load_presets f s = (Inr (presets (snd s1)), s1)"
  by (simp add: load_presets_def)

lemma load_presets_Inl: "refresh_cache f s = Inl e \<Longrightarrow> load_presets f s = (Inl e, s)"
  by (simp add: load_presets_def)

subsection \<open>Heap updates\<close>

lemma cache_set_list:
  assumes "presets (snd s) < length (list_objs (fst s))"
  shows "cache (set_list (fst s) (presets (snd s)) xs, snd s) = xs"
  using assms by (simp add: cache_def set_list_def)

lemma objs_set_list: "objs (set_list h l xs) = objs h"
  by (simp add: set_list_def)

lemma set_list_twice: "set_list (set_list h l xs) l ys = set_list h l ys"
  by (simp add: set_list_def)

lemma set_list_same: "set_list (fst s) (presets (snd s)) (cache s) = fst s"
  by (simp add: set_list_def cache_def)

lemma list_objs_set_id: "list_objs (set_id h r i) = list_objs h"
  by (simp add: set_id_def)

lemma cache_set_id: "cache (set_id h r i, m) = cache (h, m)"
  by (simp add: cache_def list_objs_set_id)

lemma objs_set_id_same:
  "r < length (objs h) \<Longrightarrow> objs (set_id h r i) ! r = (objs h ! r)\<lparr>preset_id := i\<rparr>"
  by (simp add: set_id_def)

lemma objs_set_id_other: "q \<noteq> r \<Longrightarrow> objs (set_id h r i) ! q = objs h ! q"
  by (simp add: set_id_def)

lemma set_id_own: "set_id h r (preset_id (objs h ! r)) = h"
  by (simp add: set_id_def)

lemma ids_set_id_absent:
  assumes "r \<notin> set rs"
  shows "ids (set_id h r i) rs = ids h rs"
  using assms by (induction rs) (auto simp: ids_def objs_set_id_other)

lemma cache_values_set_list:
  assumes "presets (snd s) < length (list_objs (fst s))"
  shows "cache_values (set_list (fst s) (presets (snd s)) xs, snd s) = map ((!) (objs (fst s))) xs"
  using cache_set_list[OF assms, of xs] by (simp add: cache_values_def objs_set_list)

subsection \<open>Python's max\<close>

lemma py_max_Max: "xs \<noteq> [] \<Longrightarrow> py_max xs = Inr (Max (set xs))"
proof (cases xs)
  case Nil
  then show "xs \<noteq> [] \<Longrightarrow> py_max xs = Inr (Max (set xs))" by simp
next
  case (Cons a list)
  have "Max (set (a # list)) = fold max list a" by (rule Max.set_eq_fold)
  then show ?thesis using Cons by simp
qed

lemma Max_Suc_notin: "Max (set xs) + 1 \<notin> set (xs :: int list)"
proof
  assume "Max (set xs) + 1 \<in> set xs"
  then have "Max (set xs) + 1 \<le> Max (set xs)" by (intro Max_ge) simp_all
  then show False by simp
qed

subsection \<open>The three outcomes of add\<close>

lemma add_preset_ValueError:
  assumes "refresh_cache f s = Inr s1" "must_issue s1 r" "cache s1 = []"
  shows "add_preset f w r s = (Inl ValueError, s1)"
  using assms by (simp add: add_preset_def must_issue_def ids_def)

lemma add_preset_append:
  assumes "refresh_cache f s = Inr s1" "must_issue s1 r \<longrightarrow> cache s1 \<noteq> []"
  shows "add_preset f w r s = add_append w r (set_id (fst s1) r (issued_id s1 r), snd s1)"
proof (cases "must_issue s1 r")
  case True
  then have "ids (fst s1) (cache s1) \<noteq> []" using assms(2) by (simp add: ids_def)
  then show ?thesis
    using True assms(1)
    by (simp add: add_preset_def py_max_Max issued_id_def must_issue_def del: set_empty)
next
  case False
  then show ?thesis
    using assms(1) by (simp add: add_preset_def issued_id_def must_issue_def set_id_own Let_def)
qed


lemma add_append_ok:
  assumes "presets (snd s) < length (list_objs (fst s))"
  shows "add_append (WriteOk t) r s =
    (Inr (preset_id (objs (fst s) ! r),
          \<lparr>write_time = t,
           document = PList (map (\<lambda>p. PDict (model_dump p))
                    (map ((!) (objs (fst s))) (cache s @ [r])))\<rparr>),
     (set_list (fst s) (presets (snd s)) (cache s @ [r]), snd s))"
  using cache_values_set_list[OF assms, of "cache s @ [r]"]
  by (simp add: add_append_def Let_def write_on_file_def written_def dumped_def objs_set_list)

lemma add_append_fails:
  assumes "presets (snd s) < length (list_objs (fst s))"
  shows "add_append (WriteFails e) r s = (Inl (reraise e), s)"
  using cache_set_list[OF assms, of "cache s @ [r]"]
  by (simp add: add_append_def Let_def write_on_file_def written_def set_list_twice set_list_same)

lemma cache_added:
  assumes "wf_state s1"
  shows "cache (added s1 r) = cache s1 @ [r]"
proof -
  have "presets (snd (set_id (fst s1) r (issued_id s1 r), snd s1))
      < length (list_objs (fst (set_id (fst s1) r (issued_id s1 r), snd s1)))"
    using assms by (simp add: wf_state_def list_objs_set_id)
  from cache_set_list[OF this] show ?thesis by (simp add: added_def)
qed

lemma objs_added: "objs (fst (added s1 r)) = objs (set_id (fst s1) r (issued_id s1 r))"
  by (simp add: added_def objs_set_list)

lemma add_preset_WriteOk:
  assumes "wf_state s1" "refresh_cache f s = Inr s1" "must_issue s1 r \<longrightarrow> cache s1 \<noteq> []"
    "r < length (objs (fst s1))"
  shows "add_preset f (WriteOk t) r s = (Inr (issued_id s1 r, written t (added s1 r)), added s1 r)"
proof -
  let ?s2 = "(set_id (fst s1) r (issued_id s1 r), snd s1)"
  have pr2: "presets (snd ?s2) < length (list_objs (fst ?s2))"
    using assms(1) by (simp add: wf_state_def list_objs_set_id)
  have c2: "cache ?s2 = cache s1" by (simp add: cache_set_id)
  have cv: "cache_values (added s1 r) = map ((!) (objs (fst ?s2))) (cache ?s2 @ [r])"
    using cache_values_set_list[OF pr2, of "cache s1 @ [r]"] c2 by (simp add: added_def)
  have i: "preset_id (objs (fst ?s2) ! r) = issued_id s1 r"
    using assms(4) by (simp add: objs_set_id_same)
  show ?thesis
    unfolding add_preset_append[OF assms(2,3)] add_append_ok[OF pr2] written_def dumped_def cv i
    by (simp add: added_def c2)
qed

lemma add_preset_WriteFails:
  assumes "wf_state s1" "refresh_cache f s = Inr s1" "must_issue s1 r \<longrightarrow> cache s1 \<noteq> []"
  shows "add_preset f (WriteFails e) r s
           = (Inl (reraise e), (set_id (fst s1) r (issued_id s1 r), snd s1))"
proof -
  let ?s2 = "(set_id (fst s1) r (issued_id s1 r), snd s1)"
  have pr2: "presets (snd ?s2) < length (list_objs (fst ?s2))"
    using assms(1) by (simp add: wf_state_def list_objs_set_id)
  show ?thesis
    unfolding add_preset_append[OF assms(2,3)] add_append_fails[OF pr2] ..
qed

lemma issued_id_fresh:
  assumes "must_issue s1 r \<longrightarrow> cache s1 \<noteq> []"
  shows "issued_id s1 r \<notin> set (ids (fst s1) (cache s1))"
  by (simp add: issued_id_def Max_Suc_notin)

text \<open>A successful add, taken apart.\<close>

lemma add_preset_success:
  assumes "wf_state s" "r < length (objs (fst s))" "add_preset f w r s = (Inr (i, f'), s')"
  shows "\<exists>s1 t. refresh_cache f s = Inr s1 \<and> wf_state s1 \<and> w = WriteOk t \<and>
           (must_issue s1 r \<longrightarrow> cache s1 \<noteq> []) \<and>
           i = issued_id s1 r \<and> s' = added s1 r \<and> f' = written t s'"
proof (cases "refresh_cache f s")
  case (Inl e)
  then show ?thesis using assms(3) by (simp add: add_preset_def)
next
  case (Inr s1)
  have wf1: "wf_state s1" using assms(1) Inr by (rule refresh_cache_wf)
  have r1: "r < length (objs (fst s1))"
    using refresh_cache_objs[OF Inr assms(2)] by simp
  have ne: "must_issue s1 r \<longrightarrow> cache s1 \<noteq> []"
    using add_preset_ValueError[OF Inr, of r w] assms(3) by auto
  show ?thesis
  proof (cases w)
    case (WriteFails e)
    then show ?thesis using assms(3) add_preset_WriteFails[OF wf1 Inr ne, of e] by simp
  next
    case (WriteOk t)
    then show ?thesis
      using assms(3) add_preset_WriteOk[OF wf1 Inr ne r1, of t] Inr wf1 ne by auto
  qed
qed


subsection \<open>The search loop\<close>

lemma index_of_id_None: "index_of_id h rs k = None \<longleftrightarrow> k \<notin> set (ids h rs)"
  by (induction rs) (auto simp: ids_def)

lemma index_of_id_Some:
  assumes "index_of_id h rs k = Some j"
  shows "j < length rs \<and> ids h rs ! j = k"
  using assms
proof (induction rs arbitrary: j)
  case Nil
  then show ?case by simp
next
  case (Cons a rs)
  then show ?case by (auto simp: ids_def split: if_splits)
qed

lemma ids_list_update:
  assumes "j < length rs" "ids h rs ! j = preset_id (objs h ! r)"
  shows "ids h (rs[j := r]) = ids h rs"
proof -
  have "ids h (rs[j := r]) = (ids h rs)[j := preset_id (objs h ! r)]"
    by (simp add: ids_def map_update)
  also have "\<dots> = ids h rs"
    using assms(2) by (metis list_update_id)
  finally show ?thesis .
qed

lemma ids_pop_at: "ids h (pop_at j rs) = pop_at j (ids h rs)"
  by (simp add: ids_def pop_at_def take_map drop_map)

lemma distinct_pop_at:
  assumes "distinct xs"
  shows "distinct (pop_at j xs)"
proof -
  have "set (take j xs) \<inter> set (drop (Suc j) xs) = {}"
    using set_take_disj_set_drop_if_distinct[OF assms, of j "Suc j"] by simp
  then show ?thesis using assms by (simp add: pop_at_def)
qed

lemma insert_at_pop_at:
  assumes "j < length xs"
  shows "insert_at j (xs ! j) (pop_at j xs) = xs"
  using assms by (simp add: insert_at_def pop_at_def min_def id_take_nth_drop[symmetric])


subsection \<open>Well-formed states\<close>

lemma wf_state_set_list:
  assumes "wf_state (h, m)" "\<forall>r \<in> set xs. r < length (objs h)"
  shows "wf_state (set_list h l xs, m)"
proof -
  have "set ((list_objs h)[l := xs]) \<subseteq> insert xs (set (list_objs h))"
    by (rule set_update_subset_insert)
  then show ?thesis
    using assms by (auto simp: wf_state_def wf_heap_def set_list_def)
qed

lemma wf_state_set_id: "wf_state (set_id h r i, m) = wf_state (h, m)"
  by (simp add: wf_state_def wf_heap_def set_id_def)

lemma wf_state_cache:
  assumes "wf_state s" "r \<in> set (cache s)"
  shows "r < length (objs (fst s))"
  using assms by (auto simp: wf_state_def wf_heap_def cache_def)

lemma wf_state_added:
  assumes "wf_state s1" "r < length (objs (fst s1))"
  shows "wf_state (added s1 r)"
proof -
  have w: "wf_state (set_id (fst s1) r (issued_id s1 r), snd s1)"
    using assms(1) by (simp add: wf_state_set_id)
  have "\<forall>q \<in> set (cache s1 @ [r]). q < length (objs (set_id (fst s1) r (issued_id s1 r)))"
    using assms wf_state_cache[OF assms(1)] by (auto simp: set_id_def)
  from wf_state_set_list[OF w this] show ?thesis by (simp add: added_def)
qed

subsection \<open>The outcomes of update and delete\<close>

lemma cache_updated:
  assumes "wf_state s1"
  shows "cache (updated s1 j r) = (cache s1)[j := r]"
  using cache_set_list[of s1] assms by (simp add: updated_def wf_state_def)

lemma cache_deleted:
  assumes "wf_state s1"
  shows "cache (deleted s1 j) = pop_at j (cache s1)"
  using cache_set_list[of s1] assms by (simp add: deleted_def wf_state_def)

lemma update_preset_not_found:
  assumes "refresh_cache f s = Inr s1"
    "index_of_id (fst s1) (cache s1) (preset_id (objs (fst s1) ! r)) = None"
  shows "update_preset f w r s = (Inl (PresetInputError UpdateTargetMissing), s1)"
  using assms by (simp add: update_preset_def)

lemma update_preset_WriteOk:
  assumes "refresh_cache f s = Inr s1"
    "index_of_id (fst s1) (cache s1) (preset_id (objs (fst s1) ! r)) = Some j"
  shows "update_preset f (WriteOk t) r s
           = (Inr (preset_id (objs (fst s1) ! r), written t (updated s1 j r)), updated s1 j r)"
  using assms
  by (simp add: update_preset_def Let_def write_on_file_def written_def updated_def objs_set_list)

lemma update_preset_WriteFails:
  assumes "wf_state s1" "refresh_cache f s = Inr s1"
    "index_of_id (fst s1) (cache s1) (preset_id (objs (fst s1) ! r)) = Some j"
  shows "update_preset f (WriteFails e) r s = (Inl (reraise e), s1)"
proof -
  have c: "cache (set_list (fst s1) (presets (snd s1)) ((cache s1)[j := r]), snd s1)
             = (cache s1)[j := r]"
    using cache_updated[OF assms(1)] by (simp add: updated_def)
  show ?thesis
    using assms(2,3)
    by (simp add: update_preset_def Let_def write_on_file_def written_def c set_list_twice set_list_same)
qed

lemma delete_preset_not_found:
  assumes "refresh_cache f s = Inr s1" "index_of_id (fst s1) (cache s1) k = None"
  shows "delete_preset f w k s = (Inl (PresetInputError DeleteTargetMissing), s1)"
  using assms by (simp add: delete_preset_def)

lemma delete_preset_WriteOk:
  assumes "refresh_cache f s = Inr s1" "index_of_id (fst s1) (cache s1) k = Some j"
  shows "delete_preset f (WriteOk t) k s = (Inr (k, written t (deleted s1 j)), deleted s1 j)"
  using assms
  by (simp add: delete_preset_def Let_def write_on_file_def written_def deleted_def)

lemma delete_preset_FileNotFoundError:
  assumes "wf_state s1" "refresh_cache f s = Inr s1"
    "index_of_id (fst s1) (cache s1) k = Some j"
  shows "delete_preset f (WriteFails FileNotFoundError) k s
           = (Inl (PresetInternalError FileNotFound), s1)"
proof -
  have c: "cache (set_list (fst s1) (presets (snd s1)) (pop_at j (cache s1)), snd s1)
             = pop_at j (cache s1)"
    using cache_deleted[OF assms(1)] by (simp add: deleted_def)
  have j: "j < length (cache s1)" using index_of_id_Some[OF assms(3)] by simp
  show ?thesis
    using assms(2,3)
    by (simp add: delete_preset_def Let_def write_on_file_def written_def c set_list_twice
        insert_at_pop_at[OF j] set_list_same)
qed

lemma delete_preset_other_error:
  assumes "refresh_cache f s = Inr s1" "index_of_id (fst s1) (cache s1) k = Some j"
    "e \<noteq> FileNotFoundError"
  shows "delete_preset f (WriteFails e) k s = (Inl e, deleted s1 j)"
  using assms by (simp add: delete_preset_def Let_def write_on_file_def written_def deleted_def)




subsection \<open>The concrete states\<close>

lemma two_state_wf: "wf_state two_state"
  by (simp add: wf_state_def wf_heap_def two_state_def)

lemma refresh_unchanged_two_state: "refresh_cache unchanged_fs two_state = Inr two_state"
  by (simp add: refresh_cache_def unchanged_fs_def two_state_def)

lemma two_state_cache: "cache two_state = [0, 1]"
  by (simp add: cache_def two_state_def)

lemma two_state_ids: "ids (fst two_state) (cache two_state) = [0, 5]"
  by (simp add: two_state_cache) (simp add: ids_def two_state_def example_preset_def)

lemma two_state_obj_ids:
  "preset_id (objs (fst two_state) ! 0) = 0"
  "preset_id (objs (fst two_state) ! 1) = 5" "preset_id (objs (fst two_state) ! Suc 0) = 5"
  "preset_id (objs (fst two_state) ! 2) = 7" "preset_id (objs (fst two_state) ! 3) = - 1"
  by (simp_all add: two_state_def example_preset_def)

lemma two_state_length: "length (objs (fst two_state)) = 4"
  by (simp add: two_state_def)

lemma issued_two_state_3: "issued_id two_state 3 = 6"
  by (simp add: issued_id_def two_state_ids two_state_obj_ids)

lemma must_issue_two_state: "must_issue two_state r \<longrightarrow> cache two_state \<noteq> []"
  by (simp add: two_state_cache)

lemma add_two_state_3:
  "add_preset unchanged_fs (WriteOk 2) 3 two_state
     = (Inr (6, written 2 (added two_state 3)), added two_state 3)"
  using add_preset_WriteOk[OF two_state_wf refresh_unchanged_two_state must_issue_two_state,
      of 3 2]
  by (simp add: two_state_length issued_two_state_3)

lemma added_two_state_3:
  "added two_state 3 =
     (\<lparr>objs = [example_preset 0 ''A'', example_preset 5 ''B'', example_preset 7 ''C'',
              example_preset 6 ''D''],
       list_objs = [[0, 1, 3]]\<rparr>,
      \<lparr>presets = 0, last_modified_time = 1\<rparr>)"
  unfolding added_def issued_two_state_3 two_state_cache
  by (simp add: two_state_def set_list_def set_id_def example_preset_def)

subsection \<open>Distinct ids along a sequence of calls\<close>

text \<open>Each successful call keeps the state well formed and the ids of the cache
  pairwise distinct, provided an object handed to add is not already an entry of the
  cache; so does every sequence of successful calls.\<close>

lemma ids_objs_cong: "objs h = objs h' \<Longrightarrow> ids h rs = ids h' rs"
  by (simp add: ids_def)

lemma add_preset_keeps_distinct:
  assumes "wf_state s" "r < length (objs (fst s))" "r \<notin> set (cache s)"
    "distinct (ids (fst s) (cache s))" "add_preset f w r s = (Inr v, s')"
  shows "wf_state s' \<and> distinct (ids (fst s') (cache s'))"
proof -
  obtain i f' where v: "v = (i, f')" by (cases v)
  from add_preset_success[OF assms(1,2) assms(5)[unfolded v]] obtain s1 t where
    rf: "refresh_cache f s = Inr s1" and wf1: "wf_state s1" and
    ne: "must_issue s1 r \<longrightarrow> cache s1 \<noteq> []" and s': "s' = added s1 r"
    by blast
  have r1: "r < length (objs (fst s1))"
    using refresh_cache_objs[OF rf assms(2)] by simp
  have nc: "r \<notin> set (cache s1)"
    using refresh_cache_not_cached[OF assms(2,3) rf] .
  have d1: "distinct (ids (fst s1) (cache s1))"
    using refresh_cache_distinct[OF assms(4) rf] .
  let ?h = "set_id (fst s1) r (issued_id s1 r)"
  have "ids (fst s') (cache s') = ids ?h (cache s1 @ [r])"
    unfolding s' cache_added[OF wf1] by (rule ids_objs_cong) (rule objs_added)
  also have "\<dots> = ids ?h (cache s1) @ [issued_id s1 r]"
    using r1 by (simp add: ids_def objs_set_id_same)
  also have "\<dots> = ids (fst s1) (cache s1) @ [issued_id s1 r]"
    by (simp add: ids_set_id_absent[OF nc])
  finally have "ids (fst s') (cache s') = ids (fst s1) (cache s1) @ [issued_id s1 r]" .
  then have "distinct (ids (fst s') (cache s'))"
    using d1 issued_id_fresh[OF ne] by simp
  then show ?thesis
    using wf_state_added[OF wf1 r1] s' by simp
qed

lemma update_preset_success:
  assumes "wf_state s" "update_preset f w r s = (Inr v, s')"
  shows "\<exists>s1 j. refresh_cache f s = Inr s1 \<and> wf_state s1 \<and>
           index_of_id (fst s1) (cache s1) (preset_id (objs (fst s1) ! r)) = Some j \<and>
           s' = updated s1 j r"
proof (cases "refresh_cache f s")
  case (Inl e)
  then show ?thesis using assms(2) by (simp add: update_preset_def)
next
  case (Inr s1)
  have wf1: "wf_state s1" using assms(1) Inr by (rule refresh_cache_wf)
  show ?thesis
  proof (cases "index_of_id (fst s1) (cache s1) (preset_id (objs (fst s1) ! r))")
    case None
    then show ?thesis using update_preset_not_found[OF Inr None, of w] assms(2) by simp
  next
    case (Some j)
    show ?thesis
    proof (cases w)
      case (WriteFails e)
      then show ?thesis
        using update_preset_WriteFails[OF wf1 Inr Some, of e] assms(2) by simp
    next
      case (WriteOk t)
      then show ?thesis
        using update_preset_WriteOk[OF Inr Some, of t] assms(2) Inr wf1 Some by auto
    qed
  qed
qed

lemma delete_preset_success:
  assumes "wf_state s" "delete_preset f w k s = (Inr v, s')"
  shows "\<exists>s1 j. refresh_cache f s = Inr s1 \<and> wf_state s1 \<and>
           index_of_id (fst s1) (cache s1) k = Some j \<and> s' = deleted s1 j"
proof (cases "refresh_cache f s")
  case (Inl e)
  then show ?thesis using assms(2) by (simp add: delete_preset_def)
next
  case (Inr s1)
  have wf1: "wf_state s1" using assms(1) Inr by (rule refresh_cache_wf)
  show ?thesis
  proof (cases "index_of_id (fst s1) (cache s1) k")
    case None
    then show ?thesis using delete_preset_not_found[OF Inr None, of w] assms(2) by simp
  next
    case (Some j)
    show ?thesis
    proof (cases w)
      case (WriteFails e)
      show ?thesis
      proof (cases "e = FileNotFoundError")
        case True
        then show ?thesis
          using delete_preset_FileNotFoundError[OF wf1 Inr Some] assms(2) WriteFails by simp
      next
        case False
        then show ?thesis
          using delete_preset_other_error[OF Inr Some False] assms(2) WriteFails by simp
      qed
    next
      case (WriteOk t)
      then show ?thesis
        using delete_preset_WriteOk[OF Inr Some, of t] assms(2) Inr wf1 Some by auto
    qed
  qed
qed

lemma update_preset_keeps_distinct:
  assumes "wf_state s" "r < length (objs (fst s))"
    "distinct (ids (fst s) (cache s))" "update_preset f w r s = (Inr v, s')"
  shows "wf_state s' \<and> distinct (ids (fst s') (cache s'))"
proof -
  from update_preset_success[OF assms(1,4)] obtain s1 j where
    rf: "refresh_cache f s = Inr s1" and wf1: "wf_state s1" and
    ix: "index_of_id (fst s1) (cache s1) (preset_id (objs (fst s1) ! r)) = Some j" and
    s': "s' = updated s1 j r"
    by blast
  have r1: "r < length (objs (fst s1))"
    using refresh_cache_objs[OF rf assms(2)] by simp
  have d1: "distinct (ids (fst s1) (cache s1))"
    using refresh_cache_distinct[OF assms(3) rf] .
  have j: "j < length (cache s1)" "ids (fst s1) (cache s1) ! j = preset_id (objs (fst s1) ! r)"
    using index_of_id_Some[OF ix] by simp_all
  have "ids (fst s') (cache s') = ids (fst s1) ((cache s1)[j := r])"
    unfolding s' cache_updated[OF wf1]
    by (rule ids_objs_cong) (simp add: updated_def objs_set_list)
  then have d: "distinct (ids (fst s') (cache s'))"
    using d1 by (simp add: ids_list_update[OF j])
  have "\<forall>q \<in> set ((cache s1)[j := r]). q < length (objs (fst s1))"
    using wf_state_cache[OF wf1] r1 set_update_subset_insert[of "cache s1" j r] by auto
  then have "wf_state s'"
    unfolding s' updated_def using wf_state_set_list[of "fst s1" "snd s1"] wf1 by simp
  then show ?thesis using d by simp
qed

lemma delete_preset_keeps_distinct:
  assumes "wf_state s" "distinct (ids (fst s) (cache s))"
    "delete_preset f w k s = (Inr v, s')"
  shows "wf_state s' \<and> distinct (ids (fst s') (cache s'))"
proof -
  from delete_preset_success[OF assms(1,3)] obtain s1 j where
    rf: "refresh_cache f s = Inr s1" and wf1: "wf_state s1" and
    s': "s' = deleted s1 j"
    by blast
  have d1: "distinct (ids (fst s1) (cache s1))"
    using refresh_cache_distinct[OF assms(2) rf] .
  have "ids (fst s') (cache s') = ids (fst s1) (pop_at j (cache s1))"
    unfolding s' cache_deleted[OF wf1]
    by (rule ids_objs_cong) (simp add: deleted_def objs_set_list)
  then have d: "distinct (ids (fst s') (cache s'))"
    using d1 by (simp add: ids_pop_at distinct_pop_at)
  have "set (pop_at j (cache s1)) \<subseteq> set (cache s1)"
    using set_take_subset[of j "cache s1"] set_drop_subset[of "Suc j" "cache s1"]
    by (auto simp: pop_at_def)
  then have "\<forall>q \<in> set (pop_at j (cache s1)). q < length (objs (fst s1))"
    using wf_state_cache[OF wf1] by auto
  then have "wf_state s'"
    unfolding s' deleted_def using wf_state_set_list[of "fst s1" "snd s1"] wf1 by simp
  then show ?thesis using d by simp
qed

lemma perform_keeps_distinct:
  assumes "wf_state s" "distinct (ids (fst s) (cache s))"
    "passes_fresh ((f, w, c) # cs) s" "fst (perform f w c s) = Inr v"
  shows "wf_state (snd (perform f w c s)) \<and>
         distinct (ids (fst (snd (perform f w c s))) (cache (snd (perform f w c s))))"
proof -
  have p: "perform f w c s = (Inr v, snd (perform f w c s))"
    using assms(4) by (metis prod.collapse)
  show ?thesis
  proof (cases c)
    case (Add r)
    then show ?thesis
      using add_preset_keeps_distinct[OF assms(1) _ _ assms(2), of r f w v] p assms(3)
      by (simp add: perform_def)
  next
    case (Update r)
    then show ?thesis
      using update_preset_keeps_distinct[OF assms(1) _ assms(2), of r f w v] p assms(3)
      by (simp add: perform_def)
  next
    case (Delete k)
    then show ?thesis
      using delete_preset_keeps_distinct[OF assms(1,2), of f w k v] p
      by (simp add: perform_def)
  qed
qed

lemma perform_all_keeps_distinct:
  assumes "wf_state s" "distinct (ids (fst s) (cache s))" "passes_fresh cs s"
    "perform_all cs s = Some s'"
  shows "wf_state s' \<and> distinct (ids (fst s') (cache s'))"
  using assms
proof (induction cs arbitrary: s)
  case Nil
  then show ?case by simp
next
  case (Cons a cs)
  obtain f w c where a: "a = (f, w, c)" by (cases a)
  from Cons.prems(4) obtain v where v: "fst (perform f w c s) = Inr v"
    and rest: "perform_all cs (snd (perform f w c s)) = Some s'"
    unfolding a by (auto split: sum.splits)
  from perform_keeps_distinct[OF Cons.prems(1,2) Cons.prems(3)[unfolded a] v]
  have "wf_state (snd (perform f w c s))"
    "distinct (ids (fst (snd (perform f w c s))) (cache (snd (perform f w c s))))"
    by simp_all
  moreover have "passes_fresh cs (snd (perform f w c s))"
    using Cons.prems(3) unfolding a by simp
  ultimately show ?case using Cons.IH rest by blast
qed

lemma issued_two_state_1: "issued_id two_state 1 = 6"
  by (simp add: issued_id_def two_state_ids two_state_obj_ids)

lemma added_two_state_1:
  "added two_state 1 =
     (\<lparr>objs = [example_preset 0 ''A'', example_preset 6 ''B'', example_preset 7 ''C'',
              example_preset (- 1) ''D''],
       list_objs = [[0, 1, 1]]\<rparr>,
      \<lparr>presets = 0, last_modified_time = 1\<rparr>)"
  unfolding added_def issued_two_state_1 two_state_cache
  by (simp add: two_state_def set_list_def set_id_def example_preset_def)

lemma added_two_state_1_values:
  "cache_values (added two_state 1)
     = [example_preset 0 ''A'', example_preset 6 ''B'', example_preset 6 ''B'']"
  unfolding added_two_state_1 by (simp add: cache_values_def cache_def)

text \<open>The lemma at work on one call: add of the object at address 3 (id -1).\<close>

lemma perform_all_example:
  "passes_fresh [(unchanged_fs, WriteOk 2, Add 3)] two_state \<and>
   perform_all [(unchanged_fs, WriteOk 2, Add 3)] two_state = Some (added two_state 3) \<and>
   ids (fst (added two_state 3)) (cache (added two_state 3)) = [0, 5, 6]"
proof -
  have f: "passes_fresh [(unchanged_fs, WriteOk 2, Add 3)] two_state"
    by (simp add: two_state_length two_state_cache)
  have p: "perform_all [(unchanged_fs, WriteOk 2, Add 3)] two_state = Some (added two_state 3)"
    by (simp add: perform_def add_two_state_3)
  from perform_all_keeps_distinct[OF two_state_wf _ f p]
  have "distinct (ids (fst (added two_state 3)) (cache (added two_state 3)))"
    by (simp add: two_state_ids)
  moreover have "ids (fst (added two_state 3)) (cache (added two_state 3)) = [0, 5, 6]"
    by (simp add: added_two_state_3 cache_def ids_def example_preset_def)
  ultimately show ?thesis using f p by simp
qed

section \<open>Record construction\<close>

text \<open>
  Claim C3, as stated: constructing a record with a numeric field outside its range of
  section 3 fails with a per-field validation error. It does not hold: the record below
  has \<^verbatim>\<open>speedScale\<close> = 100, \<^verbatim>\<open>pitchScale\<close> = 1 and \<^verbatim>\<open>prePhonemeLength\<close> = -1, and
  both \<^verbatim>\<open>Preset(**fields)\<close> and the parse of a file holding it succeed.
\<close>

theorem out_of_range_preset_accepted:
  "\<not> spec_in_range out_of_range_preset \<and>
   Preset_validate (model_dump out_of_range_preset) = Some out_of_range_preset \<and>
   parse_obj_as_list_Preset (PList [PDict (model_dump out_of_range_preset)])
     = Some [out_of_range_preset]"
  by (simp add: Preset_validate_model_dump parse_obj_as_list_Preset_def
      spec_in_range_def out_of_range_preset_def)

text \<open>
  Claim C3, amended: construction does not range-check any field. Whatever the values
  of its numeric fields, a record is constructed from its own fields, by the caller and
  from a file, and comes out with exactly these values.
\<close>

theorem Preset_not_range_checked:
  "Preset_validate (model_dump p) = Some p \<and>
   parse_obj_as_list_Preset (PList (map (\<lambda>p. PDict (model_dump p)) ps)) = Some ps"
  by (simp add: Preset_validate_model_dump parse_items_model_dump parse_obj_as_list_Preset_def)

section \<open>Reconcile on a null document and on an empty sequence\<close>

text \<open>
  Claim C4, as stated: a file that parses to a null document fails with StoreCorrupt and
  so does a file that parses to an empty sequence. The second half does not hold: a
  fresh store (watermark 0) over a file modified at 1 that holds \<^verbatim>\<open>[]\<close> reconciles, to
  an empty cache.
\<close>

theorem empty_sequence_accepted:
  "stat_mtime empty_list_fs = Some 1 \<and>
   last_modified_time (snd (PresetManager_init caller_heap)) = 0 \<and>
   load empty_list_fs = Inr (PList []) \<and>
   refresh_cache empty_list_fs (PresetManager_init caller_heap) =
     Inr (\<lparr>objs = [example_preset (- 1) ''A''], list_objs = [[], []]\<rparr>,
          \<lparr>presets = 1, last_modified_time = 1\<rparr>)"
  by (simp add: refresh_cache_def empty_list_fs_def PresetManager_init_def caller_heap_def
      parse_obj_as_list_Preset_def adopt_def)

text \<open>
  Claim C4, amended: when the file's modification time differs from the watermark, a
  null document makes reconcile, and with it every public operation, raise
  \<^verbatim>\<open>PresetInternalError\<close> (empty content) with the state untouched; an empty sequence is
  accepted: the cache becomes empty and the watermark is the file's modification time.
\<close>

theorem refresh_cache_null_and_empty:
  assumes "t \<noteq> last_modified_time (snd s)"
  shows "refresh_cache \<lparr>stat_mtime = Some t, load = Inr PNone\<rparr> s
           = Inl (PresetInternalError EmptyContent) \<and>
         load_presets \<lparr>stat_mtime = Some t, load = Inr PNone\<rparr> s
           = (Inl (PresetInternalError EmptyContent), s) \<and>
         add_preset \<lparr>stat_mtime = Some t, load = Inr PNone\<rparr> w r s
           = (Inl (PresetInternalError EmptyContent), s) \<and>
         update_preset \<lparr>stat_mtime = Some t, load = Inr PNone\<rparr> w r s
           = (Inl (PresetInternalError EmptyContent), s) \<and>
         delete_preset \<lparr>stat_mtime = Some t, load = Inr PNone\<rparr> w k s
           = (Inl (PresetInternalError EmptyContent), s) \<and>
         refresh_cache \<lparr>stat_mtime = Some t, load = Inr (PList [])\<rparr> s
           = Inr (adopt s [] t) \<and>
         cache (adopt s [] t) = [] \<and>
         last_modified_time (snd (adopt s [] t)) = t"
proof -
  have n: "refresh_cache \<lparr>stat_mtime = Some t, load = Inr PNone\<rparr> s
           = Inl (PresetInternalError EmptyContent)"
    using assms by (simp add: refresh_cache_def)
  have e: "refresh_cache \<lparr>stat_mtime = Some t, load = Inr (PList [])\<rparr> s = Inr (adopt s [] t)"
    using assms by (simp add: refresh_cache_def parse_obj_as_list_Preset_def)
  show ?thesis
    by (simp add: n e load_presets_def add_preset_def update_preset_def delete_preset_def
        cache_adopt) (simp add: adopt_def Let_def)
qed

theorem refresh_cache_null_and_empty_witness:
  "(1::real) \<noteq> last_modified_time (snd (PresetManager_init caller_heap)) \<and>
   refresh_cache \<lparr>stat_mtime = Some 1, load = Inr PNone\<rparr> (PresetManager_init caller_heap)
     = Inl (PresetInternalError EmptyContent) \<and>
   refresh_cache \<lparr>stat_mtime = Some 1, load = Inr (PList [])\<rparr> (PresetManager_init caller_heap)
     = Inr (adopt (PresetManager_init caller_heap) [] 1) \<and>
   cache (adopt (PresetManager_init caller_heap) [] 1) = []"
proof -
  have h: "(1::real) \<noteq> last_modified_time (snd (PresetManager_init caller_heap))"
    by (simp add: PresetManager_init_def)
  from refresh_cache_null_and_empty[OF h] h show ?thesis by simp
qed

section \<open>Rollback when the write fails\<close>

text \<open>
  Claim C1 says that delete reinserts the removed entry for every error of the persist
  step. \<^verbatim>\<open>delete_preset\<close> handles \<^verbatim>\<open>FileNotFoundError\<close> only. Here the cache is
  \<open>[0, 1]\<close>, the write raises \<^verbatim>\<open>PermissionError\<close>, and the call ends with that error and
  the cache \<open>[1]\<close>: the entry stays removed. (In general: lemma
  \<open>delete_preset_other_error\<close>. The list objects are restored by add and update for every
  error, and by delete for \<^verbatim>\<open>FileNotFoundError\<close>: lemmas \<open>add_preset_WriteFails\<close>,
  \<open>update_preset_WriteFails\<close>, \<open>delete_preset_FileNotFoundError\<close>.)
\<close>

theorem delete_preset_keeps_removal_on_other_error:
  "cache two_state = [0, 1] \<and>
   delete_preset unchanged_fs (WriteFails (OtherException ''PermissionError'')) 0 two_state
     = (Inl (OtherException ''PermissionError''),
        (\<lparr>objs = objs (fst two_state), list_objs = [[1]]\<rparr>,
         \<lparr>presets = 0, last_modified_time = 1\<rparr>)) \<and>
   cache (snd (delete_preset unchanged_fs (WriteFails (OtherException ''PermissionError'')) 0
     two_state)) = [1]"
  by (simp add: delete_preset_def refresh_cache_def unchanged_fs_def two_state_def cache_def
      example_preset_def write_on_file_def written_def set_list_def pop_at_def)

section \<open>Adding to an empty store\<close>

text \<open>
  Claim C7 says that on an empty cache add of a record with id -1 returns 0. A fresh
  store over a file holding \<^verbatim>\<open>[]\<close> reconciles to an empty cache; the id is negative, so
  \<^verbatim>\<open>max\<close> is taken of the empty list and \<^verbatim>\<open>add_preset\<close> ends with \<^verbatim>\<open>ValueError\<close>, nothing
  appended and nothing written.
\<close>

theorem add_preset_empty_cache_raises:
  "refresh_cache empty_list_fs (PresetManager_init caller_heap)
     = Inr (adopt (PresetManager_init caller_heap) [] 1) \<and>
   cache (adopt (PresetManager_init caller_heap) [] 1) = [] \<and>
   preset_id (objs caller_heap ! 0) = - 1 \<and>
   add_preset empty_list_fs (WriteOk 2) 0 (PresetManager_init caller_heap)
     = (Inl ValueError, adopt (PresetManager_init caller_heap) [] 1)"
proof -
  have r: "refresh_cache empty_list_fs (PresetManager_init caller_heap)
     = Inr (adopt (PresetManager_init caller_heap) [] 1)"
    by (simp add: refresh_cache_def empty_list_fs_def PresetManager_init_def
        parse_obj_as_list_Preset_def)
  have i: "preset_id (objs (fst (adopt (PresetManager_init caller_heap) [] 1)) ! 0) = - 1"
    by (simp add: adopt_def PresetManager_init_def caller_heap_def example_preset_def)
  show ?thesis
    by (simp add: add_preset_def r cache_adopt ids_def i)
      (simp add: caller_heap_def example_preset_def)
qed

section \<open>What list returns\<close>

text \<open>
  Claim C5, as stated: list() returns a copy of the cache, and mutating the returned
  sequence leaves the cache unchanged. It does not hold: \<^verbatim>\<open>load_presets\<close> returns
  \<^verbatim>\<open>self.presets\<close>. Here it returns address 0, which is the address the manager holds;
  the cache is \<open>[0, 1]\<close>, and once the caller empties the list it was given the cache is
  empty.
\<close>

theorem load_presets_returns_cache_object:
  "load_presets unchanged_fs two_state = (Inr 0, two_state) \<and>
   presets (snd two_state) = 0 \<and>
   cache two_state = [0, 1] \<and>
   cache (set_list (fst two_state) 0 [], snd two_state) = []"
  by (simp add: load_presets_def refresh_unchanged_two_state two_state_cache)
    (simp add: two_state_def cache_def set_list_def)

text \<open>
  Claim C5, amended: list() reconciles and returns the cache's list object itself, not a
  copy. It fails exactly when reconcile fails, with reconcile's error and the state as
  before; otherwise the returned list is the cache, element for element, and whatever
  the caller stores in the returned list is the cache from then on.
\<close>

theorem load_presets_alias:
  assumes "wf_state s" "load_presets f s = (res, s')"
  shows "case res of
           Inl e \<Rightarrow> refresh_cache f s = Inl e \<and> s' = s
         | Inr l \<Rightarrow> refresh_cache f s = Inr s' \<and> l = presets (snd s') \<and>
             list_objs (fst s') ! l = cache s' \<and>
             (\<forall>xs. cache (set_list (fst s') l xs, snd s') = xs)"
proof (cases "refresh_cache f s")
  case (Inl e)
  then show ?thesis using assms(2) by (auto simp: load_presets_def)
next
  case (Inr s1)
  then have "wf_state s1" using assms(1) by (rule refresh_cache_wf[rotated])
  then have "presets (snd s1) < length (list_objs (fst s1))" by (simp add: wf_state_def)
  then show ?thesis
    using assms(2) Inr by (auto simp: load_presets_def cache_set_list) (simp add: cache_def)
qed

theorem load_presets_alias_witness:
  "wf_state two_state \<and> load_presets unchanged_fs two_state = (Inr 0, two_state) \<and>
   refresh_cache unchanged_fs two_state = Inr two_state \<and>
   list_objs (fst two_state) ! 0 = cache two_state \<and>
   cache (set_list (fst two_state) 0 [1], snd two_state) = [1]"
proof -
  have l: "load_presets unchanged_fs two_state = (Inr 0, two_state)"
    by (simp add: load_presets_def refresh_unchanged_two_state) (simp add: two_state_def)
  from load_presets_alias[OF two_state_wf l] two_state_wf l show ?thesis by simp
qed

section \<open>The id add assigns\<close>

text \<open>
  Claim C6: when the cache after reconcile is not empty and the write succeeds, add of
  a record whose id is negative, or equal to the id of a cached record, gives the record
  the id max(existing ids) + 1 and returns it; a record with a non-negative id that no
  cached record has keeps its id, which is returned.
\<close>

theorem add_preset_assigns_id:
  assumes "wf_state s" "r < length (objs (fst s))" "refresh_cache f s = Inr s1"
    "cache s1 \<noteq> []"
  shows "\<exists>f' s'. add_preset f (WriteOk t) r s =
           (Inr (if preset_id (objs (fst s) ! r) < 0 \<or>
                    preset_id (objs (fst s) ! r) \<in> set (ids (fst s1) (cache s1))
                 then Max (set (ids (fst s1) (cache s1))) + 1
                 else preset_id (objs (fst s) ! r), f'), s') \<and>
           preset_id (objs (fst s') ! r) =
             (if preset_id (objs (fst s) ! r) < 0 \<or>
                 preset_id (objs (fst s) ! r) \<in> set (ids (fst s1) (cache s1))
              then Max (set (ids (fst s1) (cache s1))) + 1
              else preset_id (objs (fst s) ! r))"
proof -
  have wf1: "wf_state s1" using assms(1,3) by (rule refresh_cache_wf)
  have r1: "r < length (objs (fst s1))" and o1: "objs (fst s1) ! r = objs (fst s) ! r"
    using refresh_cache_objs[OF assms(3,2)] by simp_all
  have ne: "must_issue s1 r \<longrightarrow> cache s1 \<noteq> []" using assms(4) by simp
  have i: "issued_id s1 r =
             (if preset_id (objs (fst s) ! r) < 0 \<or>
                 preset_id (objs (fst s) ! r) \<in> set (ids (fst s1) (cache s1))
              then Max (set (ids (fst s1) (cache s1))) + 1
              else preset_id (objs (fst s) ! r))"
    by (simp add: issued_id_def o1)
  have "preset_id (objs (fst (added s1 r)) ! r) = issued_id s1 r"
    using r1 by (simp add: objs_added objs_set_id_same)
  then show ?thesis
    using add_preset_WriteOk[OF wf1 assms(3) ne r1, of t] i by auto
qed

theorem add_preset_assigns_id_witness:
  "wf_state two_state \<and> 1 < length (objs (fst two_state)) \<and>
   refresh_cache unchanged_fs two_state = Inr two_state \<and> cache two_state \<noteq> [] \<and>
   ids (fst two_state) (cache two_state) = [0, 5] \<and>
   (\<exists>f' s'. add_preset unchanged_fs (WriteOk 2) 1 two_state = (Inr (6, f'), s') \<and>
      preset_id (objs (fst s') ! 1) = 6) \<and>
   (\<exists>f' s'. add_preset unchanged_fs (WriteOk 2) 2 two_state = (Inr (7, f'), s') \<and>
      preset_id (objs (fst s') ! 2) = 7) \<and>
   (\<exists>f' s'. add_preset unchanged_fs (WriteOk 2) 3 two_state = (Inr (6, f'), s') \<and>
      preset_id (objs (fst s') ! 3) = 6)"
proof -
  have l: "1 < length (objs (fst two_state))" "2 < length (objs (fst two_state))"
    "3 < length (objs (fst two_state))"
    by (simp_all add: two_state_length)
  have c: "cache two_state \<noteq> []" by (simp add: two_state_cache)
  from add_preset_assigns_id[OF two_state_wf l(1) refresh_unchanged_two_state c, of 2]
    add_preset_assigns_id[OF two_state_wf l(2) refresh_unchanged_two_state c, of 2]
    add_preset_assigns_id[OF two_state_wf l(3) refresh_unchanged_two_state c, of 2]
  show ?thesis
    using two_state_wf l refresh_unchanged_two_state c
    by (simp add: two_state_ids two_state_obj_ids)
qed

section \<open>Unknown ids\<close>

text \<open>
  Claim C8: when the id is not among the ids of the cache after reconcile, delete with
  that id and update with a record of that id raise \<^verbatim>\<open>PresetInputError\<close> (not
  \<^verbatim>\<open>PresetInternalError\<close>, the store's fault), whatever the write would have done, and
  leave the state exactly as reconcile left it; a list() that follows returns that cache.
\<close>

theorem not_found_is_non_mutating:
  assumes "refresh_cache f s = Inr s1" "k \<notin> set (ids (fst s1) (cache s1))"
    "preset_id (objs (fst s1) ! r) = k"
  shows "delete_preset f w k s = (Inl (PresetInputError DeleteTargetMissing), s1) \<and>
         update_preset f w r s = (Inl (PresetInputError UpdateTargetMissing), s1) \<and>
         load_presets f s1 = (Inr (presets (snd s1)), s1)"
proof -
  have n: "index_of_id (fst s1) (cache s1) k = None"
    using assms(2) by (simp add: index_of_id_None)
  show ?thesis
    using assms(3) n refresh_cache_idem[OF assms(1)]
      delete_preset_not_found[OF assms(1) n, of w]
      update_preset_not_found[OF assms(1), of r w]
    by (simp add: load_presets_def)
qed

theorem not_found_is_non_mutating_witness:
  "refresh_cache unchanged_fs two_state = Inr two_state \<and>
   7 \<notin> set (ids (fst two_state) (cache two_state)) \<and>
   preset_id (objs (fst two_state) ! 2) = 7 \<and>
   delete_preset unchanged_fs (WriteOk 2) 7 two_state
     = (Inl (PresetInputError DeleteTargetMissing), two_state) \<and>
   update_preset unchanged_fs (WriteOk 2) 2 two_state
     = (Inl (PresetInputError UpdateTargetMissing), two_state) \<and>
   load_presets unchanged_fs two_state = (Inr 0, two_state)"
proof -
  have n: "7 \<notin> set (ids (fst two_state) (cache two_state))"
    by (simp add: two_state_ids)
  have p: "presets (snd two_state) = 0" by (simp add: two_state_def)
  from not_found_is_non_mutating[OF refresh_unchanged_two_state n two_state_obj_ids(4),
      of "WriteOk 2"]
  show ?thesis
    using refresh_unchanged_two_state n two_state_obj_ids(4) p by simp
qed

section \<open>Writing and opening again\<close>






section \<open>What add does to the record\<close>











section \<open>Uniqueness of ids\<close>

text \<open>
  Claim C2 says that after any sequence of successful calls from a cache with pairwise
  distinct ids, list() never returns two records with the same id. \<^verbatim>\<open>add_preset\<close>
  assigns the new id to the object it is given and appends that object; when the object
  is an entry of the cache (the caller got it from list()), the entry is renumbered
  too. Here the cache is \<open>[0, 1]\<close> with ids 0 and 5, and add is called with the object at
  address 1: it returns 6, the cache is \<open>[0, 1, 1]\<close> and its ids are 0, 6, 6. When the
  write leaves the modification time at the watermark, list() returns these records;
  when it moves it, list() raises \<^verbatim>\<open>PresetInternalError\<close> for duplicate ids, on the file
  the store itself wrote (the names here are \<open>A\<close> and \<open>B\<close>, which PyYAML reads back as
  dumped). (Lemma \<open>perform_all_keeps_distinct\<close> above is the claim for calls that hand
  add objects the cache does not hold.)
\<close>

theorem add_preset_cached_object_duplicates_id:
  "distinct (ids (fst two_state) (cache two_state)) \<and>
   load_presets unchanged_fs two_state = (Inr 0, two_state) \<and>
   list_objs (fst two_state) ! 0 = [0, 1] \<and>
   add_preset unchanged_fs (WriteOk 1) 1 two_state
     = (Inr (6, written 1 (added two_state 1)), added two_state 1) \<and>
   load_presets (faithful_view (written 1 (added two_state 1))) (added two_state 1)
     = (Inr 0, added two_state 1) \<and>
   list_objs (fst (added two_state 1)) ! 0 = [0, 1, 1] \<and>
   ids (fst (added two_state 1)) (list_objs (fst (added two_state 1)) ! 0) = [0, 6, 6] \<and>
   add_preset unchanged_fs (WriteOk 2) 1 two_state
     = (Inr (6, written 2 (added two_state 1)), added two_state 1) \<and>
   load_presets (faithful_view (written 2 (added two_state 1))) (added two_state 1)
     = (Inl (PresetInternalError DuplicateId), added two_state 1)"
proof -
  have l: "1 < length (objs (fst two_state))" by (simp add: two_state_length)
  have a: "add_preset unchanged_fs (WriteOk t) 1 two_state
     = (Inr (6, written t (added two_state 1)), added two_state 1)" for t
    using add_preset_WriteOk[OF two_state_wf refresh_unchanged_two_state must_issue_two_state l,
        of t]
    unfolding issued_two_state_1 .
  have w: "last_modified_time (snd (added two_state 1)) = 1"
    "presets (snd (added two_state 1)) = 0"
    unfolding added_two_state_1 by simp_all
  have r1: "refresh_cache (faithful_view (written 1 (added two_state 1))) (added two_state 1)
      = Inr (added two_state 1)"
    by (rule refresh_cache_unchanged) (unfold faithful_view_def written_def w, simp)
  have nd: "\<not> distinct (map preset_id (cache_values (added two_state 1)))"
    unfolding added_two_state_1_values by (simp add: example_preset_def)
  have r2: "refresh_cache (faithful_view (written 2 (added two_state 1))) (added two_state 1)
      = Inl (PresetInternalError DuplicateId)"
  proof (rule refresh_cache_duplicates[where t = 2 and ps = "cache_values (added two_state 1)"])
    show "stat_mtime (faithful_view (written 2 (added two_state 1))) = Some 2"
      by (simp add: faithful_view_def written_def)
    show "2 \<noteq> last_modified_time (snd (added two_state 1))"
      unfolding w by simp
    show "load (faithful_view (written 2 (added two_state 1)))
        = Inr (PList (map (\<lambda>p. PDict (model_dump p)) (cache_values (added two_state 1))))"
      by (simp add: faithful_view_def written_def dumped_def)
    show "\<not> distinct (map preset_id (cache_values (added two_state 1)))"
      by (rule nd)
  qed
  have i: "ids (fst (added two_state 1)) (list_objs (fst (added two_state 1)) ! 0) = [0, 6, 6]"
    "list_objs (fst (added two_state 1)) ! 0 = [0, 1, 1]"
    unfolding added_two_state_1 by (simp_all add: ids_def example_preset_def)
  have p: "presets (snd two_state) = 0" "list_objs (fst two_state) ! 0 = [0, 1]"
    by (simp_all add: two_state_def)
  have d: "distinct (ids (fst two_state) (cache two_state))" by (simp add: two_state_ids)
  have l0: "load_presets unchanged_fs two_state = (Inr 0, two_state)"
    by (simp add: load_presets_def refresh_unchanged_two_state p)
  have l1: "load_presets (faithful_view (written 1 (added two_state 1))) (added two_state 1)
     = (Inr 0, added two_state 1)"
    using load_presets_Inr[OF r1] unfolding w .
  have l2: "load_presets (faithful_view (written 2 (added two_state 1))) (added two_state 1)
     = (Inl (PresetInternalError DuplicateId), added two_state 1)"
    by (rule load_presets_Inl[OF r2])
  show ?thesis
    using d l0 p(2) a[of 1] l1 i a[of 2] l2 by blast
qed

end
